theory Spec2Isabelle
  imports Main "HOL-Library.AList" "HOL-Library.Char_ord" "HOL-Library.List_Lexorder"
    "HOL-Library.Sublist" "HOL-Library.Word"
begin

section \<open>Streamlit Drive: the storage operations of \<^verbatim>\<open>streamlit_app.py\<close>\<close>

text \<open>
  The program is one Streamlit script. What it stores lives in two places: the
  directory tree of the host (reached through \<^verbatim>\<open>pathlib\<close>, \<^verbatim>\<open>open\<close> and \<^verbatim>\<open>shutil\<close>)
  and \<^verbatim>\<open>st.session_state.current_path\<close>. Both are explicit values here; every
  function of the script that touches them takes them and returns them. Exceptions are
  values of the type \<open>exn\<close>; what the script shows to the user is a value of the type
  \<open>outcome\<close>. The excerpts of the script below leave out the pictograms in the labels
  of its buttons.
\<close>

subsection \<open>Python strings\<close>

text \<open>
  A Python \<^verbatim>\<open>str\<close> is a list of code points. A \<^typ>\<open>char\<close> stands for a code point
  below 256, so the strings of the model are the Latin-1 strings; \<^verbatim>\<open>str.isspace\<close>
  and \<^verbatim>\<open>str.lower\<close> are written out on that range.
\<close>

definition isspace :: "char \<Rightarrow> bool" where
  "isspace c = (of_char c \<in> set [9, 10, 11, 12, 13, 28, 29, 30, 31, 32, 133, 160 :: nat])"

definition strip :: "string \<Rightarrow> string" where
  "strip s = rev (dropWhile isspace (rev (dropWhile isspace s)))"

definition lower_char :: "char \<Rightarrow> char" where
  "lower_char c =
     (let n = of_char c :: nat
      in if (65 \<le> n \<and> n \<le> 90) \<or> (192 \<le> n \<and> n \<le> 222 \<and> n \<noteq> 215)
         then char_of (n + 32) else c)"

definition lower :: "string \<Rightarrow> string" where
  "lower s = map lower_char s"

text \<open>\<^verbatim>\<open>s.split('/')\<close>: the pieces between the separators, empty pieces included.\<close>

fun split_sep :: "string \<Rightarrow> string list" where
  "split_sep [] = [[]]"
| "split_sep (c # s) =
     (if c = CHR ''/'' then [] # split_sep s
      else (case split_sep s of [] \<Rightarrow> [[c]] | w # ws \<Rightarrow> (c # w) # ws))"

text \<open>
  What the host says of a name. It takes a component of at most 255 bytes; the file
  system encoding is UTF-8, in which a code point from 128 on has two bytes. Python
  raises \<^verbatim>\<open>ValueError\<close> for a path with a NUL before it calls the system at all.
\<close>

definition name_bytes :: "string \<Rightarrow> nat" where
  "name_bytes n = sum_list (map (\<lambda>c. if of_char c < (128 :: nat) then 1 else 2) n)"

definition has_nul :: "string \<Rightarrow> bool" where
  "has_nul n = ((0 :: nat) \<in> set (map of_char n))"

subsection \<open>\<^verbatim>\<open>pathlib\<close> paths\<close>

text \<open>
  A pure POSIX path: whether it starts at the root, and its components. Parsing a string
  drops empty components and \<^verbatim>\<open>.\<close> components and keeps \<^verbatim>\<open>..\<close> components, as
  \<^verbatim>\<open>PurePosixPath\<close> does. Joining with an absolute path gives that path.
\<close>

datatype ppath = PPath (anchored: bool) (parts: "string list")

definition parse_path :: "string \<Rightarrow> ppath" where
  "parse_path s =
     PPath (s \<noteq> [] \<and> hd s = CHR ''/'')
           (filter (\<lambda>c. c \<noteq> [] \<and> c \<noteq> ''.'') (split_sep s))"

definition joinpath :: "ppath \<Rightarrow> string \<Rightarrow> ppath" where
  "joinpath p s =
     (let q = parse_path s
      in if anchored q then q else PPath (anchored p) (parts p @ parts q))"

definition parent :: "ppath \<Rightarrow> ppath" where
  "parent p = PPath (anchored p) (butlast (parts p))"

definition name :: "ppath \<Rightarrow> string" where
  "name p = (if parts p = [] then [] else last (parts p))"

datatype exn =
    FileNotFoundError | FileExistsError | NotADirectoryError | IsADirectoryError
  | OSError | ShutilError | ValueError | KeyError

definition relative_to :: "ppath \<Rightarrow> ppath \<Rightarrow> exn + ppath" where
  "relative_to p base =
     (if anchored p = anchored base \<and> prefix (parts base) (parts p)
      then Inr (PPath False (drop (length (parts base)) (parts p)))
      else Inl ValueError)"

definition STORAGE_DIR :: ppath where
  "STORAGE_DIR = PPath False [''file_storage'']"

subsection \<open>The directory tree of the host\<close>

text \<open>
  A node is a regular file with its bytes, a directory with its entries in the order in
  which the system enumerates them, or something that is neither: \<open>Special\<close> is a FIFO
  that no process reads (a socket or a device is neither as well, but opens otherwise).
  Symbolic links are not modelled. The file system is the tree at \<^verbatim>\<open>/\<close> together
  with the working directory of the process, against which relative paths are resolved.
\<close>

type_synonym bytes = "8 word list"

datatype node = File bytes | Dir "(string \<times> node) list" | Special

record filesystem =
  tree :: node
  cwd :: "string list"

fun lookup :: "node \<Rightarrow> string list \<Rightarrow> node option" where
  "lookup t [] = Some t"
| "lookup (Dir cs) (c # p) = (case map_of cs c of None \<Rightarrow> None | Some m \<Rightarrow> lookup m p)"
| "lookup t (c # p) = None"

definition isdir_at :: "node \<Rightarrow> string list \<Rightarrow> bool" where
  "isdir_at t p = (case lookup t p of Some (Dir cs) \<Rightarrow> True | _ \<Rightarrow> False)"

text \<open>
  \<open>put t p v\<close> places \<open>v\<close> at \<open>p\<close> (a new entry goes to the end of its directory, an
  existing one is replaced where it stands); \<open>del t p\<close> removes the entry at \<open>p\<close> with
  all below it. Both leave the tree alone when the directory that should hold the entry
  is not there.
\<close>

fun put :: "node \<Rightarrow> string list \<Rightarrow> node \<Rightarrow> node" where
  "put t [] v = v"
| "put (Dir cs) [c] v = Dir (AList.update c v cs)"
| "put (Dir cs) (c # p) v =
     (case map_of cs c of None \<Rightarrow> Dir cs | Some m \<Rightarrow> Dir (AList.update c (put m p v) cs))"
| "put t (c # p) v = t"

fun del :: "node \<Rightarrow> string list \<Rightarrow> node" where
  "del t [] = t"
| "del (Dir cs) [c] = Dir (AList.delete c cs)"
| "del (Dir cs) (c # p) =
     (case map_of cs c of None \<Rightarrow> Dir cs | Some m \<Rightarrow> Dir (AList.update c (del m p) cs))"
| "del t (c # p) = t"

text \<open>
  Path resolution as the kernel does it: component by component from the starting
  directory; each component is looked up in a directory that has to exist, and a
  component of more than 255 bytes is refused there (\<^verbatim>\<open>OSError\<close>, ENAMETOOLONG);
  \<^verbatim>\<open>..\<close> goes to the parent (the root is its own parent). The last component need not
  exist. A path with a NUL never reaches the kernel. The limit of the host on the length
  of a whole path, access rights and symbolic links are outside the model.
\<close>

definition step :: "string list \<Rightarrow> string \<Rightarrow> string list" where
  "step cur c = (if c = ''..'' then butlast cur else if c = ''.'' then cur else cur @ [c])"

fun namei :: "node \<Rightarrow> string list \<Rightarrow> string list \<Rightarrow> exn + string list" where
  "namei t cur [] = Inr cur"
| "namei t cur (c # cs) =
     (case lookup t cur of
        None \<Rightarrow> Inl FileNotFoundError
      | Some (Dir es) \<Rightarrow>
          if 255 < name_bytes c then Inl OSError else namei t (step cur c) cs
      | Some _ \<Rightarrow> Inl NotADirectoryError)"

definition resolve :: "filesystem \<Rightarrow> ppath \<Rightarrow> exn + string list" where
  "resolve fs p =
     (if list_ex has_nul (parts p) then Inl ValueError
      else namei (tree fs) (if anchored p then [] else cwd fs) (parts p))"

definition stat :: "filesystem \<Rightarrow> ppath \<Rightarrow> node option" where
  "stat fs p = (case resolve fs p of Inl e \<Rightarrow> None | Inr q \<Rightarrow> lookup (tree fs) q)"

text \<open>
  \<open>exists\<close>, \<open>is_dir\<close> and \<open>is_file\<close> say what is at a path, and say no when the
  path does not resolve; this is \<^verbatim>\<open>os.path.exists\<close> and \<^verbatim>\<open>os.path.isdir\<close>, which
  \<^verbatim>\<open>shutil\<close> calls. The methods of \<^verbatim>\<open>pathlib\<close> say no for a missing path or a NUL
  and pass on every other \<^verbatim>\<open>OSError\<close>: \<open>path_exists\<close> is \<^verbatim>\<open>Path.exists\<close>.
  The script calls \<^verbatim>\<open>Path.is_dir\<close> and \<^verbatim>\<open>Path.is_file\<close> only on entries that the
  host has enumerated, whose names it has accepted and which resolve; there they are
  \<open>is_dir\<close> and \<open>is_file\<close>.
\<close>

definition exists :: "filesystem \<Rightarrow> ppath \<Rightarrow> bool" where
  "exists fs p = (stat fs p \<noteq> None)"

definition path_exists :: "filesystem \<Rightarrow> ppath \<Rightarrow> exn + bool" where
  "path_exists fs p =
     (case resolve fs p of
        Inr q \<Rightarrow> Inr (lookup (tree fs) q \<noteq> None)
      | Inl OSError \<Rightarrow> Inl OSError
      | Inl e \<Rightarrow> Inr False)"

definition is_dir :: "filesystem \<Rightarrow> ppath \<Rightarrow> bool" where
  "is_dir fs p = (case stat fs p of Some (Dir cs) \<Rightarrow> True | _ \<Rightarrow> False)"

definition is_file :: "filesystem \<Rightarrow> ppath \<Rightarrow> bool" where
  "is_file fs p = (case stat fs p of Some (File b) \<Rightarrow> True | _ \<Rightarrow> False)"

text \<open>
  A plain name is a single component: not empty, without separator, neither \<^verbatim>\<open>.\<close>
  nor \<^verbatim>\<open>..\<close>. A name that a directory entry of the host can carry is a plain name
  that the host accepts. In a tree of the host every directory holds only such names,
  each once (invariant I1 of the data model).
\<close>

definition valid_name :: "string \<Rightarrow> bool" where
  "valid_name n = (n \<noteq> [] \<and> CHR ''/'' \<notin> set n \<and> n \<noteq> ''.'' \<and> n \<noteq> ''..'')"

definition host_name :: "string \<Rightarrow> bool" where
  "host_name n = (valid_name n \<and> name_bytes n \<le> 255 \<and> \<not> has_nul n)"

fun wf_node :: "node \<Rightarrow> bool" where
  "wf_node (Dir cs) =
     (distinct (map fst cs) \<and> list_all (\<lambda>e. host_name (fst e) \<and> wf_node (snd e)) cs)"
| "wf_node t = True"

definition wf_fs :: "filesystem \<Rightarrow> bool" where
  "wf_fs fs = (wf_node (tree fs) \<and> isdir_at (tree fs) (cwd fs))"

subsection \<open>System calls and library functions\<close>

text \<open>\<^verbatim>\<open>Path.mkdir()\<close> with its defaults: one directory, which must not exist.\<close>

definition mkdir :: "filesystem \<Rightarrow> ppath \<Rightarrow> exn + filesystem" where
  "mkdir fs p =
     (case resolve fs p of
        Inl e \<Rightarrow> Inl e
      | Inr q \<Rightarrow>
          if lookup (tree fs) q \<noteq> None then Inl FileExistsError
          else if \<not> isdir_at (tree fs) (butlast q) then Inl FileNotFoundError
          else Inr (fs\<lparr>tree := put (tree fs) q (Dir [])\<rparr>))"

text \<open>
  \<^verbatim>\<open>os.rename\<close> (also \<^verbatim>\<open>Path.rename\<close>), following rename(2): the source must exist, a
  directory cannot go below itself, an existing target is replaced only by a node of its
  own kind, a directory only when it is empty.
\<close>

definition os_rename :: "filesystem \<Rightarrow> ppath \<Rightarrow> ppath \<Rightarrow> exn + filesystem" where
  "os_rename fs src dst =
     (case resolve fs src of
        Inl e \<Rightarrow> Inl e
      | Inr s \<Rightarrow>
     (case lookup (tree fs) s of
        None \<Rightarrow> Inl FileNotFoundError
      | Some n \<Rightarrow>
     (case resolve fs dst of
        Inl e \<Rightarrow> Inl e
      | Inr d \<Rightarrow>
          let moved = fs\<lparr>tree := put (del (tree fs) s) d n\<rparr>
          in if s = [] \<or> d = [] then Inl OSError
             else if s = d then Inr fs
             else if prefix s d then Inl OSError
             else if \<not> isdir_at (tree fs) (butlast d) then Inl FileNotFoundError
             else (case lookup (tree fs) d of
                     None \<Rightarrow> Inr moved
                   | Some (Dir es) \<Rightarrow>
                       (case n of
                          Dir cs \<Rightarrow> if es = [] then Inr moved else Inl OSError
                        | _ \<Rightarrow> Inl IsADirectoryError)
                   | Some _ \<Rightarrow>
                       (case n of
                          Dir cs \<Rightarrow> Inl NotADirectoryError
                        | _ \<Rightarrow> Inr moved)))))"

text \<open>
  A call that can change the host before it raises, or never return: it is done, or it
  has failed and left a host behind, or it hangs.
\<close>

datatype effect = Done filesystem | Failed exn filesystem | Hangs

text \<open>
  \<^verbatim>\<open>with open(p, "wb") as f: shutil.copyfileobj(src, f)\<close>. \<^verbatim>\<open>open\<close> creates the
  file, or empties it when it is there; a directory cannot be opened for writing, and
  opening a FIFO that nobody reads does not return. Then the stream is copied. The host
  can stop the copy (disk full, I/O error): \<open>room\<close> is the number of bytes it takes
  before it raises, \<open>None\<close> when it takes them all. What was written stays in the file.
\<close>

definition copy_into :: "filesystem \<Rightarrow> string list \<Rightarrow> bytes \<Rightarrow> nat option \<Rightarrow> effect" where
  "copy_into fs q content room =
     (case room of
        None \<Rightarrow> Done (fs\<lparr>tree := put (tree fs) q (File content)\<rparr>)
      | Some k \<Rightarrow> Failed OSError (fs\<lparr>tree := put (tree fs) q (File (take k content))\<rparr>))"

definition write_file :: "filesystem \<Rightarrow> ppath \<Rightarrow> bytes \<Rightarrow> nat option \<Rightarrow> effect" where
  "write_file fs p content room =
     (case resolve fs p of
        Inl e \<Rightarrow> Failed e fs
      | Inr q \<Rightarrow>
          (case lookup (tree fs) q of
             Some (Dir es) \<Rightarrow> Failed IsADirectoryError fs
           | Some Special \<Rightarrow> Hangs
           | Some (File old) \<Rightarrow> copy_into fs q content room
           | None \<Rightarrow>
               if \<not> isdir_at (tree fs) (butlast q) then Failed FileNotFoundError fs
               else copy_into fs q content room))"



text \<open>
  \<^verbatim>\<open>Path.mkdir(exist_ok=True)\<close>: as \<^verbatim>\<open>mkdir\<close>, but an \<^verbatim>\<open>OSError\<close> other than
  \<^verbatim>\<open>FileNotFoundError\<close> is dropped when the path is a directory.
\<close>

definition mkdir_exist_ok :: "filesystem \<Rightarrow> ppath \<Rightarrow> exn + filesystem" where
  "mkdir_exist_ok fs p =
     (case mkdir fs p of
        Inr fs' \<Rightarrow> Inr fs'
      | Inl FileNotFoundError \<Rightarrow> Inl FileNotFoundError
      | Inl e \<Rightarrow> if is_dir fs p then Inr fs else Inl e)"

definition child :: "ppath \<Rightarrow> string \<Rightarrow> ppath" where
  "child p n = PPath (anchored p) (parts p @ [n])"

definition iterdir :: "filesystem \<Rightarrow> ppath \<Rightarrow> exn + ppath list" where
  "iterdir fs p =
     (case resolve fs p of
        Inl e \<Rightarrow> Inl e
      | Inr q \<Rightarrow>
          (case lookup (tree fs) q of
             None \<Rightarrow> Inl FileNotFoundError
           | Some (Dir es) \<Rightarrow> Inr (map (\<lambda>e. child p (fst e)) es)
           | Some _ \<Rightarrow> Inl NotADirectoryError))"

text \<open>
  \<^verbatim>\<open>p.rglob('*')\<close>: every entry below \<open>p\<close>, at any depth; nothing when \<open>p\<close> is not
  a directory. \<^verbatim>\<open>pathlib\<close> fixes no order between the entries; here an entry comes
  right before the entries below it.
\<close>

fun descend :: "node \<Rightarrow> string list list" where
  "descend (Dir cs) = concat (map (\<lambda>e. [fst e] # map ((#) (fst e)) (descend (snd e))) cs)"
| "descend t = []"

definition rglob :: "filesystem \<Rightarrow> ppath \<Rightarrow> ppath list" where
  "rglob fs p =
     (case stat fs p of
        None \<Rightarrow> []
      | Some t \<Rightarrow> map (\<lambda>r. PPath (anchored p) (parts p @ r)) (descend t))"

text \<open>
  \<^verbatim>\<open>shutil.move(src, dst)\<close>, from the standard library:
  \<^verbatim>\<open>
  real_dst = dst
  if os.path.isdir(dst):
      if _samefile(src, dst):
          os.rename(src, dst)
          return
      real_dst = os.path.join(dst, _basename(src))
      if os.path.exists(real_dst):
          raise Error("Destination path '%s' already exists" % real_dst)
  try:
      os.rename(src, real_dst)
  except OSError:
      ... copy to real_dst, then delete src ...
  \<close>
  When \<open>dst\<close> is a directory the source goes into it under
  its own name, and an entry of that name already there makes the call raise
  \<^verbatim>\<open>shutil.Error\<close> ("Destination path ... already exists"). The move itself is
  \<^verbatim>\<open>os.rename\<close>. The library falls back to copy-and-delete when the rename raises; that
  is for a move between devices, and on the one tree of this model whatever stops the
  rename stops the copy as well, so the model returns the error (the exception class the
  library raises there may be another one).
\<close>

definition samefile :: "filesystem \<Rightarrow> ppath \<Rightarrow> ppath \<Rightarrow> bool" where
  "samefile fs a b = (exists fs a \<and> exists fs b \<and> resolve fs a = resolve fs b)"

definition shutil_move :: "filesystem \<Rightarrow> ppath \<Rightarrow> ppath \<Rightarrow> exn + filesystem" where
  "shutil_move fs src dst =
     (if is_dir fs dst then
        if samefile fs src dst then os_rename fs src dst
        else let real_dst = joinpath dst (name src)
             in if exists fs real_dst then Inl ShutilError
                else os_rename fs src real_dst
      else os_rename fs src dst)"

subsection \<open>The script\<close>

text \<open>
  What one action of the script reports: nothing at all, \<^verbatim>\<open>st.warning("Name cannot be
  empty.")\<close>, \<^verbatim>\<open>st.error("... already exists ...")\<close>, \<^verbatim>\<open>st.error\<close> with a caught
  exception, \<^verbatim>\<open>st.success\<close> followed by \<^verbatim>\<open>st.rerun()\<close>, an exception that leaves
  the function or the form, or no report because a call does not return.
\<close>

datatype outcome =
    Ignored | Warned_empty | Error_exists | Error_caught exn | Succeeded | Raised exn
  | Blocked

text \<open>
  Lines 11 and 12, at the top of the script and so part of every run:
  \<^verbatim>\<open>
  STORAGE_DIR = Path("file_storage")
  STORAGE_DIR.mkdir(exist_ok=True)
  \<close>
\<close>

definition ensure_storage :: "filesystem \<Rightarrow> exn + filesystem" where
  "ensure_storage fs = mkdir_exist_ok fs STORAGE_DIR"

text \<open>
  Lines 41 to 44. The first element is the constant \<^verbatim>\<open>STORAGE_DIR\<close>, whatever the
  argument.
  \<^verbatim>\<open>
  def get_all_folders(root_dir):
      folders = [path for path in root_dir.rglob('*') if path.is_dir()]
      return [STORAGE_DIR] + folders # Include the root itself
  \<close>
\<close>

definition get_all_folders :: "filesystem \<Rightarrow> ppath \<Rightarrow> ppath list" where
  "get_all_folders fs root_dir = STORAGE_DIR # filter (is_dir fs) (rglob fs root_dir)"

text \<open>
  Lines 46 to 60. \<^verbatim>\<open>st.rerun()\<close> leaves the run with an exception that is not an
  \<^verbatim>\<open>Exception\<close>, so the handler below does not catch it. An exception of
  \<^verbatim>\<open>new_path.exists()\<close> leaves the function.
  \<^verbatim>\<open>
  def handle_rename(old_path, new_name):
      if not new_name.strip():
          st.warning("Name cannot be empty.")
          return
      new_path = old_path.parent / new_name.strip()
      if new_path.exists():
          st.error(f"'{new_name}' already exists in this folder.")
      else:
          try:
              old_path.rename(new_path)
              st.success(f"Renamed to '{new_name}'")
              st.rerun()
          except Exception as e:
              st.error(f"Error renaming: {e}")
  \<close>
\<close>

definition handle_rename :: "filesystem \<Rightarrow> ppath \<Rightarrow> string \<Rightarrow> outcome \<times> filesystem" where
  "handle_rename fs old_path new_name =
     (if strip new_name = [] then (Warned_empty, fs)
      else let new_path = joinpath (parent old_path) (strip new_name)
           in case path_exists fs new_path of
                Inl e \<Rightarrow> (Raised e, fs)
              | Inr True \<Rightarrow> (Error_exists, fs)
              | Inr False \<Rightarrow>
                  (case os_rename fs old_path new_path of
                     Inl e \<Rightarrow> (Error_caught e, fs)
                   | Inr fs' \<Rightarrow> (Succeeded, fs')))"

text \<open>
  Lines 91 to 98, the upload button (it is disabled while no file is selected). The loop
  has no handler: the first exception ends it and the run of the script. An uploaded
  file is its name and its bytes; with it goes what the host will do when they are
  written (see \<open>write_file\<close>).
  \<^verbatim>\<open>
  if st.button("Upload", use_container_width=True, disabled=not uploaded_files):
      for up_file in uploaded_files:
          save_path = st.session_state.current_path / up_file.name
          with open(save_path, "wb") as f:
              shutil.copyfileobj(up_file, f)
      st.success(f"Uploaded {len(uploaded_files)} file(s)!")
      st.rerun()
  \<close>
\<close>

datatype uploaded = Uploaded (up_name: string) (up_bytes: bytes) (up_room: "nat option")

fun upload_loop :: "filesystem \<Rightarrow> ppath \<Rightarrow> uploaded list \<Rightarrow> outcome \<times> filesystem" where
  "upload_loop fs cur [] = (Succeeded, fs)"
| "upload_loop fs cur (up_file # rest) =
     (let save_path = joinpath cur (up_name up_file)
      in case write_file fs save_path (up_bytes up_file) (up_room up_file) of
           Failed e fs' \<Rightarrow> (Raised e, fs')
         | Hangs \<Rightarrow> (Blocked, fs)
         | Done fs' \<Rightarrow> upload_loop fs' cur rest)"

definition upload :: "filesystem \<Rightarrow> ppath \<Rightarrow> uploaded list \<Rightarrow> outcome \<times> filesystem" where
  "upload fs cur uploaded_files =
     (if uploaded_files = [] then (Ignored, fs) else upload_loop fs cur uploaded_files)"


text \<open>
  Lines 148 to 151 and 207 to 208, the listing block: the entries of the current
  directory, the directories and the regular files among them, each sorted with the key
  \<^verbatim>\<open>name.lower()\<close>. Python's \<^verbatim>\<open>sorted\<close> is stable, as \<^const>\<open>sort_key\<close> is. An
  exception is caught by the handler around the block, which shows it.
  \<^verbatim>\<open>
  try:
      items = list(st.session_state.current_path.iterdir())
      folders = sorted([i for i in items if i.is_dir()], key=lambda i: i.name.lower())
      files = sorted([i for i in items if i.is_file()], key=lambda i: i.name.lower())
      ...
  except Exception as e:
      st.error(f"An error occurred: {e}")
  \<close>
\<close>

definition listing :: "filesystem \<Rightarrow> ppath \<Rightarrow> exn + (ppath list \<times> ppath list)" where
  "listing fs cur =
     (case iterdir fs cur of
        Inl e \<Rightarrow> Inl e
      | Inr items \<Rightarrow>
          Inr (sort_key (\<lambda>i. lower (name i)) (filter (is_dir fs) items),
               sort_key (\<lambda>i. lower (name i)) (filter (is_file fs) items)))"

text \<open>
  Lines 189 to 197, the move form of a file, inside the listing block and so under its
  handler: the dictionary from relative path to folder, over all folders but the file's
  own, and the move into the chosen one. A Python dictionary keeps a key where it was
  first inserted and takes the last value given for it. The paths reach
  \<^verbatim>\<open>shutil.move\<close> as text; the model passes the paths themselves.
  \<^verbatim>\<open>
  all_folders = get_all_folders(STORAGE_DIR)
  folder_options = {f.relative_to(STORAGE_DIR): f for f in all_folders if f != file.parent}
  dest_folder_rel = st.selectbox("Choose destination", options=folder_options.keys(), ...)
  if st.form_submit_button("Move File", use_container_width=True):
      destination_path = folder_options[dest_folder_rel]
      shutil.move(str(file), str(destination_path))
      st.success(f"Moved '{file.name}' to '{dest_folder_rel}'")
      st.rerun()
  \<close>
\<close>

fun build_options :: "ppath \<Rightarrow> ppath list \<Rightarrow> (ppath \<times> ppath) list \<Rightarrow> exn + (ppath \<times> ppath) list" where
  "build_options file [] acc = Inr acc"
| "build_options file (f # rest) acc =
     (if f \<noteq> parent file then
        (case relative_to f STORAGE_DIR of
           Inl e \<Rightarrow> Inl e
         | Inr k \<Rightarrow> build_options file rest (AList.update k f acc))
      else build_options file rest acc)"

definition folder_options :: "filesystem \<Rightarrow> ppath \<Rightarrow> exn + (ppath \<times> ppath) list" where
  "folder_options fs file = build_options file (get_all_folders fs STORAGE_DIR) []"

definition move_form :: "filesystem \<Rightarrow> ppath \<Rightarrow> ppath \<Rightarrow> outcome \<times> filesystem" where
  "move_form fs file dest_folder_rel =
     (case folder_options fs file of
        Inl e \<Rightarrow> (Error_caught e, fs)
      | Inr opts \<Rightarrow>
          (case map_of opts dest_folder_rel of
             None \<Rightarrow> (Error_caught KeyError, fs)
           | Some destination_path \<Rightarrow>
               (case shutil_move fs file destination_path of
                  Inl e \<Rightarrow> (Error_caught e, fs)
                | Inr fs' \<Rightarrow> (Succeeded, fs'))))"












subsection \<open>What an observer sees of the tree\<close>




subsection \<open>A sample host\<close>

definition demo_storage :: node where
  "demo_storage = Dir
     [(''notes.txt'', File [104, 105]),
      (''Docs'', Dir [(''notes.txt'', File [1]), (''Old'', Dir [])]),
      (''readme'', File []),
      (''README'', File []),
      ('' b'', File [2]),
      (''pipe'', Special)]"

definition demo_fs :: filesystem where
  "demo_fs = \<lparr>tree = Dir [(''srv'', Dir [(''file_storage'', demo_storage)])], cwd = [''srv'']\<rparr>"

subsection \<open>The order the specification asks of a listing\<close>

text \<open>
  From the specification of the listing, not from the script: names ascending without
  regard to case, and names that are equal without regard to case in case-sensitive order.
\<close>

definition spec_name_le :: "string \<Rightarrow> string \<Rightarrow> bool" where
  "spec_name_le a b = (lower a < lower b \<or> (lower a = lower b \<and> a \<le> b))"


section \<open>Properties of the tree operations\<close>

text \<open>
  Where a tree changed by \<open>put\<close> or \<open>del\<close> agrees with the tree before: below the
  changed path, away from it, and above its directory.
\<close>

lemma isdir_butlast_Cons: "isdir_at t (butlast (c # p)) \<Longrightarrow> \<exists>cs. t = Dir cs"
  by (cases t; cases p) (auto simp: isdir_at_def)

lemma lookup_put_below:
  "p \<noteq> [] \<Longrightarrow> isdir_at t (butlast p) \<Longrightarrow> lookup (put t p v) (p @ r) = lookup v r"
proof (induction p arbitrary: t)
  case Nil
  then show ?case by simp
next
  case (Cons c p)
  from isdir_butlast_Cons[OF Cons.prems(2)] obtain cs where t: "t = Dir cs" by blast
  show ?case
  proof (cases p)
    case Nil
    then show ?thesis using t by (simp add: AList.update_conv')
  next
    case (Cons a p')
    with Cons.prems(2) t obtain m where m: "map_of cs c = Some m" and d: "isdir_at m (butlast p)"
      by (auto simp: isdir_at_def split: option.splits)
    have "lookup (put m p v) (p @ r) = lookup v r"
      using Cons.IH[OF _ d] Cons by simp
    then show ?thesis using t m Cons by (simp add: AList.update_conv')
  qed
qed

lemma lookup_put_apart:
  "\<not> prefix p q \<Longrightarrow> \<not> prefix q p \<Longrightarrow> lookup (put t p v) q = lookup t q"
proof (induction t p v arbitrary: q rule: put.induct)
  case (2 cs c v)
  then show ?case by (cases q) (auto simp: AList.update_conv')
next
  case (3 cs c a p v)
  then show ?case by (cases q) (auto simp: AList.update_conv' split: option.splits)
qed auto


lemma lookup_del_below: "p \<noteq> [] \<Longrightarrow> lookup (del t p) (p @ r) = None"
proof (induction t p rule: del.induct)
  case (3 cs c a p)
  then show ?case by (auto simp: AList.update_conv' split: option.splits)
qed (auto simp: AList.delete_conv' AList.update_conv' split: option.splits)

lemma lookup_del_apart:
  "\<not> prefix p q \<Longrightarrow> \<not> prefix q p \<Longrightarrow> lookup (del t p) q = lookup t q"
proof (induction t p arbitrary: q rule: del.induct)
  case (2 cs c)
  then show ?case by (cases q) (auto simp: AList.delete_conv')
next
  case (3 cs c a p)
  then show ?case by (cases q) (auto simp: AList.update_conv' split: option.splits)
qed auto


lemma isdir_del_above: "strict_prefix q p \<Longrightarrow> isdir_at (del t p) q = isdir_at t q"
proof (induction t p arbitrary: q rule: del.induct)
  case (2 cs c)
  then show ?case by (cases q) (auto simp: isdir_at_def)
next
  case (3 cs c a p)
  show ?case
  proof (cases q)
    case Nil
    then show ?thesis by (auto simp: isdir_at_def split: option.splits)
  next
    case (Cons d q')
    show ?thesis
    proof (cases "map_of cs c")
      case None
      then show ?thesis by simp
    next
      case (Some m)
      from 3(2) Cons have d: "d = c" and sp: "strict_prefix q' (a # p)" by auto
      have "isdir_at (del m (a # p)) q' = isdir_at m q'"
        using 3(1)[OF Some sp] .
      then show ?thesis using Some Cons d
        by (simp add: isdir_at_def AList.update_conv')
    qed
  qed
qed auto

lemma listing_Inr:
  "iterdir fs cur = Inr items \<Longrightarrow>
   listing fs cur = Inr (sort_key (\<lambda>i. lower (name i)) (filter (is_dir fs) items),
                         sort_key (\<lambda>i. lower (name i)) (filter (is_file fs) items))"
  by (simp add: listing_def)

lemma dir_not_file: "is_dir fs p \<Longrightarrow> \<not> is_file fs p"
  by (auto simp: is_dir_def is_file_def split: option.splits node.splits)



lemma file_dir_not_same: "is_file fs a \<Longrightarrow> is_dir fs b \<Longrightarrow> \<not> samefile fs a b"
  by (auto simp: is_file_def is_dir_def samefile_def stat_def split: option.splits node.splits sum.splits)

subsection \<open>Plain names, resolution of a child, well-formed trees\<close>

lemma split_sep_plain: "CHR ''/'' \<notin> set n \<Longrightarrow> split_sep n = [n]"
  by (induction n) (auto split: list.splits)

lemma parse_path_valid: "valid_name n \<Longrightarrow> parse_path n = PPath False [n]"
  by (cases n) (auto simp: valid_name_def parse_path_def split_sep_plain)

lemma joinpath_valid: "valid_name n \<Longrightarrow> joinpath p n = child p n"
  by (simp add: joinpath_def parse_path_valid child_def)

lemma step_valid: "valid_name n \<Longrightarrow> step cur n = cur @ [n]"
  by (simp add: step_def valid_name_def)

lemma namei_append:
  "namei t cur (xs @ ys) = (case namei t cur xs of Inl e \<Rightarrow> Inl e | Inr c \<Rightarrow> namei t c ys)"
  by (induction t cur xs rule: namei.induct) (auto split: option.splits node.splits)

lemma host_valid: "host_name n \<Longrightarrow> valid_name n"
  by (simp add: host_name_def)

lemma resolve_child:
  "valid_name n \<Longrightarrow> resolve fs p = Inr b \<Longrightarrow>
   resolve fs (child p n) =
     (if has_nul n then Inl ValueError
      else case lookup (tree fs) b of
             None \<Rightarrow> Inl FileNotFoundError
           | Some (Dir es) \<Rightarrow> if 255 < name_bytes n then Inl OSError else Inr (b @ [n])
           | Some _ \<Rightarrow> Inl NotADirectoryError)"
  by (auto simp: resolve_def child_def namei_append step_valid
      split: option.splits node.splits if_splits)

lemma resolve_child_Inr:
  "valid_name n \<Longrightarrow> resolve fs p = Inr b \<Longrightarrow> resolve fs (child p n) = Inr s \<Longrightarrow>
   s = b @ [n] \<and> isdir_at (tree fs) b"
  using resolve_child[of n fs p b]
  by (auto simp: isdir_at_def split: option.splits node.splits if_splits)

lemma resolve_child_host:
  "host_name n \<Longrightarrow> resolve fs p = Inr b \<Longrightarrow> isdir_at (tree fs) b \<Longrightarrow>
   resolve fs (child p n) = Inr (b @ [n])"
  using resolve_child[of n fs p b]
  by (auto simp: host_name_def isdir_at_def split: option.splits node.splits)

lemma child_parent_name: "parts p \<noteq> [] \<Longrightarrow> child (parent p) (name p) = p"
  by (cases p) (simp add: child_def parent_def name_def)

lemma name_child: "name (child p n) = n"
  by (simp add: name_def child_def)

lemma lookup_prefix_dir:
  "lookup t (p @ c # r) \<noteq> None \<Longrightarrow> isdir_at t p"
proof (induction p arbitrary: t)
  case Nil
  then show ?case by (cases t) (auto simp: isdir_at_def)
next
  case (Cons a p)
  then obtain cs m where t: "t = Dir cs" and m: "map_of cs a = Some m"
    and l: "lookup m (p @ c # r) \<noteq> None"
    by (cases t) (auto split: option.splits)
  from Cons.IH[OF l] have "isdir_at m p" .
  then show ?case using t m by (simp add: isdir_at_def)
qed



lemma wf_lookup: "wf_node t \<Longrightarrow> lookup t p = Some m \<Longrightarrow> wf_node m"
proof (induction p arbitrary: t)
  case Nil
  then show ?case by simp
next
  case (Cons a p)
  then obtain cs where t: "t = Dir cs" by (cases t) auto
  with Cons.prems obtain k where k: "map_of cs a = Some k" and l: "lookup k p = Some m"
    by (auto split: option.splits)
  from k have "(a, k) \<in> set cs" by (rule map_of_SomeD)
  with Cons.prems(1) t have "wf_node k" by (auto simp: list_all_iff)
  with Cons.IH l show ?case by blast
qed

lemma wf_entry_host: "wf_node t \<Longrightarrow> lookup t (b @ [n]) \<noteq> None \<Longrightarrow> host_name n"
proof -
  assume wf: "wf_node t" and l: "lookup t (b @ [n]) \<noteq> None"
  from lookup_prefix_dir[of t b n "[]"] l have "isdir_at t b" by simp
  then obtain cs where b: "lookup t b = Some (Dir cs)"
    by (auto simp: isdir_at_def split: option.splits node.splits)
  have la: "\<And>t. lookup t b = Some (Dir cs) \<Longrightarrow> lookup t (b @ [n]) = lookup (Dir cs) [n]"
  proof (induction b)
    case Nil
    then show ?case by simp
  next
    case (Cons a b)
    then show ?case by (cases t) (auto split: option.splits)
  qed
  from la[OF b] l obtain k where "map_of cs n = Some k" by (auto split: option.splits)
  then have "(n, k) \<in> set cs" by (rule map_of_SomeD)
  moreover from wf_lookup[OF wf b] have "list_all (\<lambda>e. host_name (fst e) \<and> wf_node (snd e)) cs" by simp
  ultimately show ?thesis by (auto simp: list_all_iff)
qed

lemma lookup_append: "lookup t p = Some m \<Longrightarrow> lookup t (p @ r) = lookup m r"
proof (induction p arbitrary: t)
  case Nil
  then show ?case by simp
next
  case (Cons a p)
  then show ?case by (cases t) (auto split: option.splits)
qed

lemma valid_name_parts: "valid_name (name p) \<Longrightarrow> parts p \<noteq> []"
  by (auto simp: name_def valid_name_def)

text \<open>What a rename between two entries of one directory does to the tree.\<close>

lemma os_rename_sibling:
  assumes rs: "resolve fs src = Inr (b @ [c])" and rd: "resolve fs dst = Inr (b @ [n])"
    and ls: "lookup (tree fs) (b @ [c]) = Some v" and ld: "lookup (tree fs) (b @ [n]) = None"
  shows "os_rename fs src dst = Inr (fs\<lparr>tree := put (del (tree fs) (b @ [c])) (b @ [n]) v\<rparr>)"
proof -
  from ls ld have ne: "c \<noteq> n" by auto
  from lookup_prefix_dir[of "tree fs" b c "[]"] ls have "isdir_at (tree fs) b" by simp
  with rs rd ls ld ne show ?thesis
    by (simp add: os_rename_def Let_def)
qed

lemma rename_sibling_tree:
  assumes ls: "lookup t (b @ [c]) = Some v" and ne: "c \<noteq> n"
  shows "lookup (put (del t (b @ [c])) (b @ [n]) v) (b @ n # r) = lookup v r"
    and "lookup (put (del t (b @ [c])) (b @ [n]) v) (b @ [c]) = None"
proof -
  from lookup_prefix_dir[of t b c "[]"] ls have d: "isdir_at t b" by simp
  have "strict_prefix b (b @ [c])" by (auto simp: strict_prefix_def)
  from isdir_del_above[OF this, of t] d have d': "isdir_at (del t (b @ [c])) (butlast (b @ [n]))"
    by simp
  from lookup_put_below[OF _ d', of v r]
  show "lookup (put (del t (b @ [c])) (b @ [n]) v) (b @ n # r) = lookup v r" by simp
  have "lookup (put (del t (b @ [c])) (b @ [n]) v) (b @ [c]) = lookup (del t (b @ [c])) (b @ [c])"
    using ne by (intro lookup_put_apart) auto
  also have "\<dots> = None" using lookup_del_below[of "b @ [c]" t "[]"] by simp
  finally show "lookup (put (del t (b @ [c])) (b @ [n]) v) (b @ [c]) = None" .
qed

lemma path_exists_False:
  "path_exists fs p = Inr False \<Longrightarrow> resolve fs p = Inr d \<Longrightarrow> lookup (tree fs) d = None"
  by (simp add: path_exists_def)

lemma handle_rename_plain:
  assumes ok: "handle_rename fs old_path new_name = (Succeeded, fs')"
    and vn: "valid_name (strip new_name)" and vo: "valid_name (name old_path)"
    and rb: "resolve fs (parent old_path) = Inr b"
  shows "\<exists>v. lookup (tree fs) (b @ [name old_path]) = Some v \<and>
             lookup (tree fs) (b @ [strip new_name]) = None \<and>
             fs' = fs\<lparr>tree := put (del (tree fs) (b @ [name old_path])) (b @ [strip new_name]) v\<rparr>"
proof -
  let ?new = "joinpath (parent old_path) (strip new_name)"
  from ok have nex: "path_exists fs ?new = Inr False" and mv: "os_rename fs old_path ?new = Inr fs'"
    by (auto simp: handle_rename_def Let_def split: if_splits sum.splits bool.splits)
  have old: "old_path = child (parent old_path) (name old_path)"
    using child_parent_name[OF valid_name_parts[OF vo]] by simp
  have new: "?new = child (parent old_path) (strip new_name)"
    by (rule joinpath_valid[OF vn])
  from mv obtain s v d where s: "resolve fs old_path = Inr s" and v: "lookup (tree fs) s = Some v"
    and d: "resolve fs ?new = Inr d"
    by (auto simp: os_rename_def split: sum.splits option.splits)
  from resolve_child_Inr[OF vo rb, of s] old s have s': "s = b @ [name old_path]" by simp
  from resolve_child_Inr[OF vn rb, of d] new d have d': "d = b @ [strip new_name]" by simp
  from path_exists_False[OF nex d] d' have ln: "lookup (tree fs) (b @ [strip new_name]) = None"
    by simp
  from os_rename_sibling[OF _ _ _ ln, of old_path "name old_path" ?new v] s v s' d d' mv
  have "fs' = fs\<lparr>tree := put (del (tree fs) (b @ [name old_path])) (b @ [strip new_name]) v\<rparr>"
    by simp
  with v s' ln show ?thesis by blast
qed

lemma resolve_parent_dir:
  "resolve fs p = Inr b \<Longrightarrow> host_name n \<Longrightarrow> lookup (tree fs) (b @ [n]) \<noteq> None \<Longrightarrow>
   resolve fs (child p n) = Inr (b @ [n])"
proof -
  assume r: "resolve fs p = Inr b" and v: "host_name n" and l: "lookup (tree fs) (b @ [n]) \<noteq> None"
  from lookup_prefix_dir[of "tree fs" b n "[]"] l have "isdir_at (tree fs) b" by simp
  then show ?thesis by (rule resolve_child_host[OF v r])
qed





subsection \<open>The recursive enumeration\<close>













lemma host_name_storage: "host_name ''file_storage''"
  by code_simp




subsection \<open>The upload loop\<close>

lemma upload_loop_append_failed:
  "upload_loop fs cur pre = (Succeeded, fs1) \<Longrightarrow>
   write_file fs1 (joinpath cur (up_name x)) (up_bytes x) (up_room x) = Failed e fs2 \<Longrightarrow>
   upload_loop fs cur (pre @ x # post) = (Raised e, fs2)"
proof (induction pre arbitrary: fs)
  case Nil
  then show ?case by simp
next
  case (Cons y pre)
  then show ?case by (auto simp: Let_def split: effect.splits)
qed

lemma write_file_failed:
  "write_file fs p content room = Failed e fs2 \<Longrightarrow>
   fs2 = fs \<or> (\<exists>q k. resolve fs p = Inr q \<and> room = Some k \<and> e = OSError \<and>
                   fs2 = fs\<lparr>tree := put (tree fs) q (File (take k content))\<rparr>)"
  by (auto simp: write_file_def copy_into_def split: sum.splits option.splits node.splits if_splits)

subsection \<open>Navigation\<close>


subsection \<open>The form for a new folder\<close>



subsection \<open>What the operations leave alone\<close>

lemma isdir_put_above: "strict_prefix q p \<Longrightarrow> isdir_at (put t p v) q = isdir_at t q"
proof (induction p arbitrary: t q)
  case Nil
  then show ?case by simp
next
  case (Cons c p)
  show ?case
  proof (cases t)
    case (Dir cs)
    show ?thesis
    proof (cases q)
      case Nil
      then show ?thesis using Dir
        by (cases p) (auto simp: isdir_at_def split: option.splits)
    next
      case (Cons d q')
      with Cons.prems have d: "d = c" and sp: "strict_prefix q' p" by auto
      then obtain a p' where p: "p = a # p'" by (cases p) auto
      show ?thesis
      proof (cases "map_of cs c")
        case None
        then show ?thesis using Dir p by simp
      next
        case (Some m)
        have "isdir_at (put m p v) q' = isdir_at m q'" by (rule Cons.IH[OF sp])
        then show ?thesis using Dir Some p Cons d
          by (simp add: isdir_at_def AList.update_conv')
      qed
    qed
  qed (cases p; simp)+
qed















lemma ensure_storage_present: "is_dir fs STORAGE_DIR \<Longrightarrow> ensure_storage fs = Inr fs"
  by (auto simp: ensure_storage_def mkdir_exist_ok_def mkdir_def is_dir_def stat_def
      split: sum.splits option.splits node.splits exn.splits)




text \<open>The rerun after a navigation button finds the storage root that the run has made sure of.\<close>

lemma ensure_storage_again: "ensure_storage fs = Inr fs1 \<Longrightarrow> ensure_storage fs1 = Inr fs1"
proof -
  assume en: "ensure_storage fs = Inr fs1"
  have "is_dir fs1 STORAGE_DIR"
  proof (cases "mkdir fs STORAGE_DIR")
    case (Inl e)
    with en show ?thesis
      by (cases e) (auto simp: ensure_storage_def mkdir_exist_ok_def split: if_splits)
  next
    case (Inr fs')
    with en have fs1: "fs1 = fs'" by (simp add: ensure_storage_def mkdir_exist_ok_def)
    from Inr obtain q where q: "resolve fs STORAGE_DIR = Inr q"
      and d: "isdir_at (tree fs) (butlast q)"
      and fs': "fs' = fs\<lparr>tree := put (tree fs) q (Dir [])\<rparr>"
      by (auto simp: mkdir_def split: sum.splits if_splits)
    from q have c: "isdir_at (tree fs) (cwd fs)" and q': "q = cwd fs @ [''file_storage'']"
      by (auto simp: resolve_def STORAGE_DIR_def isdir_at_def step_def
          split: option.splits node.splits if_splits)
    have "strict_prefix (cwd fs) q" unfolding q' by (auto simp: strict_prefix_def)
    from isdir_put_above[OF this, of "tree fs" "Dir []"] c
    have c': "isdir_at (put (tree fs) q (Dir [])) (cwd fs)" by simp
    have "resolve fs' (PPath False []) = Inr (cwd fs)" by (simp add: resolve_def fs')
    from resolve_child_host[OF host_name_storage this] c'
    have r: "resolve fs' STORAGE_DIR = Inr q"
      by (simp add: fs' child_def STORAGE_DIR_def q')
    from lookup_put_below[of q "tree fs" "Dir []" "[]"] d q'
    have "lookup (tree fs') q = Some (Dir [])" by (simp add: fs')
    with r show ?thesis by (simp add: fs1 is_dir_def stat_def)
  qed
  then show ?thesis by (rule ensure_storage_present)
qed

section \<open>The claims\<close>




text \<open>
  Claim C2, as stated: a move into a folder that holds a file of the same name succeeds
  and overwrites that file. In the sample host \<^verbatim>\<open>notes.txt\<close> is moved into
  \<^verbatim>\<open>Docs\<close>, which has a \<^verbatim>\<open>notes.txt\<close>: \<^verbatim>\<open>shutil.move\<close> raises, the handler of
  the listing block reports it, and both files are as before.
\<close>

theorem move_overwrite_counterexample:
  "stat demo_fs (child (child STORAGE_DIR ''Docs'') ''notes.txt'') = Some (File [1]) \<and>
   stat demo_fs (child STORAGE_DIR ''notes.txt'') = Some (File [104, 105]) \<and>
   move_form demo_fs (child STORAGE_DIR ''notes.txt'') (PPath False [''Docs'']) =
     (Error_caught ShutilError, demo_fs)"
  by code_simp

text \<open>
  Claim C2, amended: when the chosen destination is a folder that already has an entry
  with the name of the file, the move is refused: \<^verbatim>\<open>shutil.move\<close> raises
  \<^verbatim>\<open>shutil.Error\<close>, the script reports the error, and the host is unchanged, so the
  destination keeps its content and the source stays where it is.
\<close>

theorem move_onto_same_name_refused:
  "is_file fs file \<Longrightarrow> folder_options fs file = Inr opts \<Longrightarrow>
   map_of opts dest_folder_rel = Some destination_path \<Longrightarrow>
   is_dir fs destination_path \<Longrightarrow>
   exists fs (joinpath destination_path (name file)) \<Longrightarrow>
   move_form fs file dest_folder_rel = (Error_caught ShutilError, fs)"
  by (simp add: move_form_def shutil_move_def file_dir_not_same)

theorem move_onto_same_name_refused_witness:
  "is_file demo_fs (child STORAGE_DIR ''notes.txt'') \<and>
   folder_options demo_fs (child STORAGE_DIR ''notes.txt'') =
     Inr [(PPath False [''Docs''], child STORAGE_DIR ''Docs''),
          (PPath False [''Docs'', ''Old''], child (child STORAGE_DIR ''Docs'') ''Old'')] \<and>
   is_dir demo_fs (child STORAGE_DIR ''Docs'') \<and>
   exists demo_fs (joinpath (child STORAGE_DIR ''Docs'') (name (child STORAGE_DIR ''notes.txt''))) \<and>
   move_form demo_fs (child STORAGE_DIR ''notes.txt'') (PPath False [''Docs'']) =
     (Error_caught ShutilError, demo_fs)"
proof -
  have h1: "is_file demo_fs (child STORAGE_DIR ''notes.txt'')" by code_simp
  have h2: "folder_options demo_fs (child STORAGE_DIR ''notes.txt'') =
     Inr [(PPath False [''Docs''], child STORAGE_DIR ''Docs''),
          (PPath False [''Docs'', ''Old''], child (child STORAGE_DIR ''Docs'') ''Old'')]" by code_simp
  have h3: "map_of [(PPath False [''Docs''], child STORAGE_DIR ''Docs''),
          (PPath False [''Docs'', ''Old''], child (child STORAGE_DIR ''Docs'') ''Old'')] (PPath False [''Docs''])
     = Some (child STORAGE_DIR ''Docs'')" by simp
  have h4: "is_dir demo_fs (child STORAGE_DIR ''Docs'')" by code_simp
  have h5: "exists demo_fs (joinpath (child STORAGE_DIR ''Docs'') (name (child STORAGE_DIR ''notes.txt'')))"
    by code_simp
  from move_onto_same_name_refused[OF h1 h2 h3 h4 h5] h1 h2 h4 h5 show ?thesis by blast
qed




text \<open>
  Claim C4, as stated: a rename to a new name that a sibling already carries fails with
  "already exists". The script compares the stripped name: in the sample host the folder
  has an entry \<^verbatim>\<open>" b"\<close> (with a leading blank) and none called \<^verbatim>\<open>b\<close>; the rename
  of \<^verbatim>\<open>notes.txt\<close> to \<^verbatim>\<open>" b"\<close> succeeds and the file becomes \<^verbatim>\<open>b\<close>.
\<close>

theorem rename_collision_counterexample:
  "stat demo_fs (child STORAGE_DIR '' b'') = Some (File [2]) \<and>
   fst (handle_rename demo_fs (child STORAGE_DIR ''notes.txt'') '' b'') = Succeeded \<and>
   stat (snd (handle_rename demo_fs (child STORAGE_DIR ''notes.txt'') '' b''))
        (child STORAGE_DIR ''notes.txt'') = None \<and>
   stat (snd (handle_rename demo_fs (child STORAGE_DIR ''notes.txt'') '' b''))
        (child STORAGE_DIR ''b'') = Some (File [104, 105])"
  by code_simp

text \<open>
  Claim C4, amended: when the folder of the node already has an entry whose name is the
  new name with leading and trailing whitespace stripped, the rename reports "already
  exists" and the host is unchanged: the node keeps its path and content and no node is
  created.
\<close>

theorem rename_collision_refused:
  "wf_fs fs \<Longrightarrow> resolve fs (parent old_path) = Inr b \<Longrightarrow>
   lookup (tree fs) (b @ [strip new_name]) \<noteq> None \<Longrightarrow>
   handle_rename fs old_path new_name = (Error_exists, fs)"
proof -
  assume wf: "wf_fs fs" and r: "resolve fs (parent old_path) = Inr b"
    and l: "lookup (tree fs) (b @ [strip new_name]) \<noteq> None"
  from wf l have h: "host_name (strip new_name)"
    by (auto simp: wf_fs_def dest: wf_entry_host)
  then have v: "valid_name (strip new_name)" by (rule host_valid)
  then have ne: "strip new_name \<noteq> []" by (simp add: valid_name_def)
  have "resolve fs (joinpath (parent old_path) (strip new_name)) = Inr (b @ [strip new_name])"
    using resolve_parent_dir[OF r h l] by (simp add: joinpath_valid[OF v])
  with l have "path_exists fs (joinpath (parent old_path) (strip new_name)) = Inr True"
    by (simp add: path_exists_def)
  with ne show ?thesis by (simp add: handle_rename_def)
qed

theorem rename_collision_refused_witness:
  "wf_fs demo_fs \<and>
   resolve demo_fs (parent (child STORAGE_DIR ''notes.txt'')) = Inr [''srv'', ''file_storage''] \<and>
   lookup (tree demo_fs) ([''srv'', ''file_storage''] @ [strip '' Docs  '']) \<noteq> None \<and>
   handle_rename demo_fs (child STORAGE_DIR ''notes.txt'') '' Docs  '' = (Error_exists, demo_fs)"
proof -
  have h1: "wf_fs demo_fs" by code_simp
  have h2: "resolve demo_fs (parent (child STORAGE_DIR ''notes.txt'')) = Inr [''srv'', ''file_storage'']"
    by code_simp
  have h3: "lookup (tree demo_fs) ([''srv'', ''file_storage''] @ [strip '' Docs  '']) \<noteq> None"
    by code_simp
  from rename_collision_refused[OF h1 h2 h3] h1 h2 h3 show ?thesis by blast
qed




text \<open>
  Claim C6, as stated: each sequence of the listing is sorted by name without regard to
  case, and names equal without regard to case stand in case-sensitive order. The script
  sorts with the key \<^verbatim>\<open>name.lower()\<close> only: in the sample host the directory
  enumerates \<^verbatim>\<open>readme\<close> before \<^verbatim>\<open>README\<close>, and the listing keeps them so.
\<close>

theorem listing_tie_counterexample:
  "listing demo_fs STORAGE_DIR =
     Inr ([child STORAGE_DIR ''Docs''],
          map (child STORAGE_DIR) ['' b'', ''notes.txt'', ''readme'', ''README'']) \<and>
   \<not> sorted_wrt spec_name_le
        (map name (map (child STORAGE_DIR) ['' b'', ''notes.txt'', ''readme'', ''README'']))"
  by code_simp

text \<open>
  Claim C6, amended: each sequence of the listing is sorted by the lower-cased name, and
  entries whose names are equal without regard to case keep the order in which the
  directory enumerates them.
\<close>

theorem listing_sorted_stable:
  "iterdir fs cur = Inr items \<Longrightarrow> listing fs cur = Inr (folders, files) \<Longrightarrow>
     sorted (map (\<lambda>i. lower (name i)) folders) \<and>
     sorted (map (\<lambda>i. lower (name i)) files) \<and>
     (\<forall>k. filter (\<lambda>i. lower (name i) = k) folders =
           filter (\<lambda>i. lower (name i) = k) (filter (is_dir fs) items)) \<and>
     (\<forall>k. filter (\<lambda>i. lower (name i) = k) files =
           filter (\<lambda>i. lower (name i) = k) (filter (is_file fs) items))"
proof -
  assume it: "iterdir fs cur = Inr items" and li: "listing fs cur = Inr (folders, files)"
  from listing_Inr[OF it] li
  have fo: "folders = sort_key (\<lambda>i. lower (name i)) (filter (is_dir fs) items)"
    and fi: "files = sort_key (\<lambda>i. lower (name i)) (filter (is_file fs) items)"
    by auto
  show ?thesis
    unfolding fo fi by (simp add: sort_key_stable)
qed

theorem listing_sorted_stable_witness:
  "iterdir demo_fs STORAGE_DIR =
     Inr (map (child STORAGE_DIR) [''notes.txt'', ''Docs'', ''readme'', ''README'', '' b'', ''pipe'']) \<and>
   listing demo_fs STORAGE_DIR =
     Inr ([child STORAGE_DIR ''Docs''],
          map (child STORAGE_DIR) ['' b'', ''notes.txt'', ''readme'', ''README'']) \<and>
   sorted (map (\<lambda>i. lower (name i))
             (map (child STORAGE_DIR) ['' b'', ''notes.txt'', ''readme'', ''README''])) \<and>
   filter (\<lambda>i. lower (name i) = ''readme'')
          (map (child STORAGE_DIR) ['' b'', ''notes.txt'', ''readme'', ''README'']) =
   filter (\<lambda>i. lower (name i) = ''readme'')
          (filter (is_file demo_fs)
             (map (child STORAGE_DIR) [''notes.txt'', ''Docs'', ''readme'', ''README'', '' b'', ''pipe'']))"
proof -
  have h1: "iterdir demo_fs STORAGE_DIR =
     Inr (map (child STORAGE_DIR) [''notes.txt'', ''Docs'', ''readme'', ''README'', '' b'', ''pipe''])"
    by code_simp
  have h2: "listing demo_fs STORAGE_DIR =
     Inr ([child STORAGE_DIR ''Docs''],
          map (child STORAGE_DIR) ['' b'', ''notes.txt'', ''readme'', ''README''])"
    by code_simp
  from listing_sorted_stable[OF h1 h2] h1 h2 show ?thesis by blast
qed



text \<open>
  Claim C8, as stated: a failure while saving one uploaded file does not keep the files
  after it from being attempted and saved. In the sample host a batch whose first name is
  that of a folder raises at once; the second file, which uploads well on its own, is
  never written.
\<close>

theorem upload_failure_counterexample:
  "upload demo_fs STORAGE_DIR [Uploaded ''Docs'' [1] None, Uploaded ''new.txt'' [2] None] =
     (Raised IsADirectoryError, demo_fs) \<and>
   stat demo_fs (child STORAGE_DIR ''new.txt'') = None \<and>
   fst (upload demo_fs STORAGE_DIR [Uploaded ''new.txt'' [2] None]) = Succeeded"
  by code_simp

text \<open>
  Claim C8, amended: when the files before the k-th have been saved and saving the k-th
  raises, the exception ends the upload and the files after the k-th are not attempted.
  Nothing is rolled back: the host is left as it was after the files before the k-th,
  but for the file of the k-th itself, which holds the bytes written before the failure
  when the failure came during the copy.
\<close>

theorem upload_stops_at_failure:
  "upload_loop fs cur pre = (Succeeded, fs1) \<Longrightarrow>
   write_file fs1 (joinpath cur (up_name x)) (up_bytes x) (up_room x) = Failed e fs2 \<Longrightarrow>
     upload fs cur (pre @ x # post) = (Raised e, fs2) \<and>
     (fs2 = fs1 \<or>
      (\<exists>q k. resolve fs1 (joinpath cur (up_name x)) = Inr q \<and> up_room x = Some k \<and>
             e = OSError \<and>
             fs2 = fs1\<lparr>tree := put (tree fs1) q (File (take k (up_bytes x)))\<rparr>))"
proof -
  assume p: "upload_loop fs cur pre = (Succeeded, fs1)"
    and w: "write_file fs1 (joinpath cur (up_name x)) (up_bytes x) (up_room x) = Failed e fs2"
  from upload_loop_append_failed[OF p w]
  have "upload fs cur (pre @ x # post) = (Raised e, fs2)" by (simp add: upload_def)
  with write_file_failed[OF w] show ?thesis by blast
qed

theorem upload_stops_at_failure_witness:
  "upload_loop demo_fs STORAGE_DIR [Uploaded ''new.txt'' [2] None] =
     (Succeeded, snd (upload_loop demo_fs STORAGE_DIR [Uploaded ''new.txt'' [2] None])) \<and>
   write_file (snd (upload_loop demo_fs STORAGE_DIR [Uploaded ''new.txt'' [2] None]))
     (joinpath STORAGE_DIR ''big.bin'') [1, 2, 3] (Some 2) =
     Failed OSError
       (snd (upload demo_fs STORAGE_DIR
          [Uploaded ''new.txt'' [2] None, Uploaded ''big.bin'' [1, 2, 3] (Some 2)])) \<and>
   upload demo_fs STORAGE_DIR
     [Uploaded ''new.txt'' [2] None, Uploaded ''big.bin'' [1, 2, 3] (Some 2),
      Uploaded ''later.txt'' [3] None] =
     (Raised OSError,
      snd (upload demo_fs STORAGE_DIR
          [Uploaded ''new.txt'' [2] None, Uploaded ''big.bin'' [1, 2, 3] (Some 2)])) \<and>
   stat (snd (upload demo_fs STORAGE_DIR
          [Uploaded ''new.txt'' [2] None, Uploaded ''big.bin'' [1, 2, 3] (Some 2)]))
        (child STORAGE_DIR ''new.txt'') = Some (File [2]) \<and>
   stat (snd (upload demo_fs STORAGE_DIR
          [Uploaded ''new.txt'' [2] None, Uploaded ''big.bin'' [1, 2, 3] (Some 2)]))
        (child STORAGE_DIR ''big.bin'') = Some (File [1, 2]) \<and>
   stat (snd (upload demo_fs STORAGE_DIR
          [Uploaded ''new.txt'' [2] None, Uploaded ''big.bin'' [1, 2, 3] (Some 2)]))
        (child STORAGE_DIR ''later.txt'') = None"
proof -
  have h1: "upload_loop demo_fs STORAGE_DIR [Uploaded ''new.txt'' [2] None] =
     (Succeeded, snd (upload_loop demo_fs STORAGE_DIR [Uploaded ''new.txt'' [2] None]))"
    by code_simp
  have h2: "write_file (snd (upload_loop demo_fs STORAGE_DIR [Uploaded ''new.txt'' [2] None]))
     (joinpath STORAGE_DIR (up_name (Uploaded ''big.bin'' [1, 2, 3] (Some 2))))
     (up_bytes (Uploaded ''big.bin'' [1, 2, 3] (Some 2)))
     (up_room (Uploaded ''big.bin'' [1, 2, 3] (Some 2))) =
     Failed OSError
       (snd (upload demo_fs STORAGE_DIR
          [Uploaded ''new.txt'' [2] None, Uploaded ''big.bin'' [1, 2, 3] (Some 2)]))"
    by code_simp
  have h3: "stat (snd (upload demo_fs STORAGE_DIR
          [Uploaded ''new.txt'' [2] None, Uploaded ''big.bin'' [1, 2, 3] (Some 2)]))
        (child STORAGE_DIR ''new.txt'') = Some (File [2])" by code_simp
  have h4: "stat (snd (upload demo_fs STORAGE_DIR
          [Uploaded ''new.txt'' [2] None, Uploaded ''big.bin'' [1, 2, 3] (Some 2)]))
        (child STORAGE_DIR ''big.bin'') = Some (File [1, 2])" by code_simp
  have h5: "stat (snd (upload demo_fs STORAGE_DIR
          [Uploaded ''new.txt'' [2] None, Uploaded ''big.bin'' [1, 2, 3] (Some 2)]))
        (child STORAGE_DIR ''later.txt'') = None" by code_simp
  from upload_stops_at_failure[OF h1 h2, of "[Uploaded ''later.txt'' [3] None]"] h1 h2 h3 h4 h5
  show ?thesis by simp
qed

text \<open>
  Claim C9, as stated: after every successful rename with a new name that carries
  leading or trailing whitespace, the leaf name of the node is the new name with that
  whitespace stripped. The stripped name is joined to the folder as a path, not as a
  leaf: in the sample host the new name \<^verbatim>\<open>" Docs/n2.txt "\<close> succeeds and the node ends
  up with the leaf name \<^verbatim>\<open>n2.txt\<close> inside \<^verbatim>\<open>Docs\<close>.
\<close>

theorem rename_leaf_counterexample:
  "fst (handle_rename demo_fs (child STORAGE_DIR ''notes.txt'') '' Docs/n2.txt '') = Succeeded \<and>
   strip '' Docs/n2.txt '' = ''Docs/n2.txt'' \<and>
   name (joinpath (parent (child STORAGE_DIR ''notes.txt'')) (strip '' Docs/n2.txt '')) = ''n2.txt'' \<and>
   stat (snd (handle_rename demo_fs (child STORAGE_DIR ''notes.txt'') '' Docs/n2.txt ''))
        (child (child STORAGE_DIR ''Docs'') ''n2.txt'') = Some (File [104, 105])"
  by code_simp

text \<open>
  Claim C9, amended: after every successful rename of an entry of a listing with a new
  name whose stripped form is a single plain component (not empty, no separator, not
  \<^verbatim>\<open>.\<close> or \<^verbatim>\<open>..\<close>), the target path has the stripped name as its leaf name, the node
  with all below it stands under that name in the same folder, and the old name is gone.
\<close>

theorem rename_strips_name:
  "handle_rename fs old_path new_name = (Succeeded, fs') \<Longrightarrow>
   valid_name (strip new_name) \<Longrightarrow> valid_name (name old_path) \<Longrightarrow>
   resolve fs (parent old_path) = Inr b \<Longrightarrow>
     name (joinpath (parent old_path) (strip new_name)) = strip new_name \<and>
     lookup (tree fs) (b @ [name old_path]) \<noteq> None \<and>
     lookup (tree fs') (b @ [name old_path]) = None \<and>
     (\<forall>r. lookup (tree fs') (b @ strip new_name # r) = lookup (tree fs) (b @ name old_path # r))"
proof -
  assume ok: "handle_rename fs old_path new_name = (Succeeded, fs')"
    and vn: "valid_name (strip new_name)" and vo: "valid_name (name old_path)"
    and rb: "resolve fs (parent old_path) = Inr b"
  from handle_rename_plain[OF ok vn vo rb] obtain v where
    v: "lookup (tree fs) (b @ [name old_path]) = Some v"
    and ln: "lookup (tree fs) (b @ [strip new_name]) = None"
    and fs': "fs' = fs\<lparr>tree := put (del (tree fs) (b @ [name old_path])) (b @ [strip new_name]) v\<rparr>"
    by blast
  from v ln have ne: "name old_path \<noteq> strip new_name" by auto
  have "name (joinpath (parent old_path) (strip new_name)) = strip new_name"
    by (simp add: joinpath_valid[OF vn] name_child)
  moreover have "lookup (tree fs') (b @ [name old_path]) = None"
    using rename_sibling_tree(2)[OF v ne] fs' by simp
  moreover have "lookup (tree fs') (b @ strip new_name # r) = lookup (tree fs) (b @ name old_path # r)" for r
    using rename_sibling_tree(1)[OF v ne, of r] lookup_append[OF v, of r] fs' by simp
  ultimately show ?thesis using v by simp
qed

theorem rename_strips_name_witness:
  "handle_rename demo_fs (child STORAGE_DIR ''Docs'') '' Papers  '' =
     (Succeeded, snd (handle_rename demo_fs (child STORAGE_DIR ''Docs'') '' Papers  '')) \<and>
   valid_name (strip '' Papers  '') \<and> valid_name (name (child STORAGE_DIR ''Docs'')) \<and>
   resolve demo_fs (parent (child STORAGE_DIR ''Docs'')) = Inr [''srv'', ''file_storage''] \<and>
   name (joinpath (parent (child STORAGE_DIR ''Docs'')) (strip '' Papers  '')) = ''Papers'' \<and>
   lookup (tree (snd (handle_rename demo_fs (child STORAGE_DIR ''Docs'') '' Papers  '')))
     [''srv'', ''file_storage'', ''Docs''] = None \<and>
   lookup (tree (snd (handle_rename demo_fs (child STORAGE_DIR ''Docs'') '' Papers  '')))
     [''srv'', ''file_storage'', ''Papers'', ''notes.txt''] = Some (File [1])"
proof -
  have h1: "handle_rename demo_fs (child STORAGE_DIR ''Docs'') '' Papers  '' =
     (Succeeded, snd (handle_rename demo_fs (child STORAGE_DIR ''Docs'') '' Papers  ''))"
    by code_simp
  have h2: "valid_name (strip '' Papers  '')" by code_simp
  have h3: "valid_name (name (child STORAGE_DIR ''Docs''))" by code_simp
  have h4: "resolve demo_fs (parent (child STORAGE_DIR ''Docs'')) = Inr [''srv'', ''file_storage'']"
    by code_simp
  have e1: "strip '' Papers  '' = ''Papers''" by code_simp
  have e2: "name (child STORAGE_DIR ''Docs'') = ''Docs''" by code_simp
  have e3: "lookup (tree demo_fs) [''srv'', ''file_storage'', ''Docs'', ''notes.txt''] = Some (File [1])"
    by code_simp
  from rename_strips_name[OF h1 h2 h3 h4]
  have "name (joinpath (parent (child STORAGE_DIR ''Docs'')) (strip '' Papers  '')) = strip '' Papers  ''"
    and "lookup (tree (snd (handle_rename demo_fs (child STORAGE_DIR ''Docs'') '' Papers  '')))
           ([''srv'', ''file_storage''] @ [name (child STORAGE_DIR ''Docs'')]) = None"
    and "lookup (tree (snd (handle_rename demo_fs (child STORAGE_DIR ''Docs'') '' Papers  '')))
           ([''srv'', ''file_storage''] @ strip '' Papers  '' # [''notes.txt'']) =
         lookup (tree demo_fs) ([''srv'', ''file_storage''] @ name (child STORAGE_DIR ''Docs'') # [''notes.txt''])"
    by blast+
  then show ?thesis using h1 h2 h3 h4 e3 unfolding e1 e2 by simp
qed

text \<open>
  Claim C10. The two sequences of the listing are disjoint and hold only entries of the
  directory; an entry is in the folder sequence exactly when it is a directory and in the
  file sequence exactly when it is a regular file; an entry that is neither is in neither
  sequence.
\<close>

theorem listing_partition:
  "iterdir fs cur = Inr items \<Longrightarrow> listing fs cur = Inr (folders, files) \<Longrightarrow>
     set folders \<inter> set files = {} \<and>
     set folders \<union> set files \<subseteq> set items \<and>
     (\<forall>i \<in> set items.
        (i \<in> set folders \<longleftrightarrow> is_dir fs i) \<and>
        (i \<in> set files \<longleftrightarrow> is_file fs i) \<and>
        (\<not> is_dir fs i \<and> \<not> is_file fs i \<longrightarrow> i \<notin> set folders \<and> i \<notin> set files))"
proof -
  assume it: "iterdir fs cur = Inr items" and li: "listing fs cur = Inr (folders, files)"
  from listing_Inr[OF it] li
  have fo: "set folders = {i \<in> set items. is_dir fs i}"
    and fi: "set files = {i \<in> set items. is_file fs i}"
    by auto
  show ?thesis
    unfolding fo fi using dir_not_file by auto
qed

theorem listing_partition_witness:
  "iterdir demo_fs STORAGE_DIR =
     Inr (map (child STORAGE_DIR) [''notes.txt'', ''Docs'', ''readme'', ''README'', '' b'', ''pipe'']) \<and>
   listing demo_fs STORAGE_DIR =
     Inr ([child STORAGE_DIR ''Docs''],
          map (child STORAGE_DIR) ['' b'', ''notes.txt'', ''readme'', ''README'']) \<and>
   \<not> is_dir demo_fs (child STORAGE_DIR ''pipe'') \<and>
   \<not> is_file demo_fs (child STORAGE_DIR ''pipe'') \<and>
   child STORAGE_DIR ''pipe'' \<notin> set [child STORAGE_DIR ''Docs''] \<and>
   child STORAGE_DIR ''pipe'' \<notin> set (map (child STORAGE_DIR) ['' b'', ''notes.txt'', ''readme'', ''README''])"
proof -
  have h1: "iterdir demo_fs STORAGE_DIR =
     Inr (map (child STORAGE_DIR) [''notes.txt'', ''Docs'', ''readme'', ''README'', '' b'', ''pipe''])"
    by code_simp
  have h2: "listing demo_fs STORAGE_DIR =
     Inr ([child STORAGE_DIR ''Docs''],
          map (child STORAGE_DIR) ['' b'', ''notes.txt'', ''readme'', ''README''])"
    by code_simp
  have h3: "\<not> is_dir demo_fs (child STORAGE_DIR ''pipe'')" by code_simp
  have h4: "\<not> is_file demo_fs (child STORAGE_DIR ''pipe'')" by code_simp
  have h5: "child STORAGE_DIR ''pipe'' \<in> set (map (child STORAGE_DIR) [''notes.txt'', ''Docs'', ''readme'', ''README'', '' b'', ''pipe''])"
    by simp
  from listing_partition[OF h1 h2] h3 h4 h5
  have "child STORAGE_DIR ''pipe'' \<notin> set [child STORAGE_DIR ''Docs''] \<and>
   child STORAGE_DIR ''pipe'' \<notin> set (map (child STORAGE_DIR) ['' b'', ''notes.txt'', ''readme'', ''README''])"
    by blast
  with h1 h2 h3 h4 show ?thesis by blast
qed

end
